theory Spec2Isabelle
  imports
    Main
    "HOL-Library.Sorting_Algorithms"
    "HOL-Library.List_Lexorder"
    "HOL-Library.Char_ord"
begin

section \<open>DocumentBackCapture.tsx: data model\<close>

text \<open>
  The image blob is opaque to the component: it is only passed on to the API client.
  It is modelled as a number that names the blob. The timestamp is the value of
  \<^verbatim>\<open>new Date()\<close>, taken from the environment.
\<close>

record CapturedImage =
  blob :: nat
  url :: string
  timestamp :: nat

datatype error_type = Validation | Network

record CaptureError =
  error_type :: error_type
  message :: string
  tips :: "string list"

text \<open>
  The response of \<^verbatim>\<open>kycApiService.processDocument\<close>. Only its \<^verbatim>\<open>message\<close> field is
  read; \<open>None\<close> is the absent field (\<^verbatim>\<open>undefined\<close>).
\<close>

datatype api_response = ApiResponse (response_message: "string option")

text \<open>
  A thrown value, as far as the \<^verbatim>\<open>catch\<close> block looks at it:
  \<^verbatim>\<open>error?.response?.data?.message\<close> and \<^verbatim>\<open>error?.message\<close>. \<open>None\<close> is a missing link
  of the optional chain.
\<close>

record thrown =
  response_data_message :: "string option"
  error_message :: "string option"

text \<open>How an awaited promise settles.\<close>

datatype 'a settled = Resolved 'a | Rejected thrown

text \<open>
  Everything the component calls, in the order of the calls: the camera hook, the
  callbacks of the props, the API client, the platform, and the state setters.
\<close>

datatype event =
    StartCamera string
  | StopCamera
  | CaptureImage
  | RevokeObjectURL string
  | OnCapture CapturedImage
  | OnNext
  | OnError string
  | ProcessDocument nat string string
  | ProcessOCRDocument nat string
  | OnSelectCountryCode string
  | SetCapturedImage "CapturedImage option"
  | SetIsCapturing bool
  | SetIsUploading bool
  | SetUploadError "string option"
  | SetIsClearImage bool
  | SetCaptureError "CaptureError option"

text \<open>
  The six \<^verbatim>\<open>useState\<close> cells of the component, and the trace of calls made so far.
  No handler reads a state cell after writing it, so applying a setter at once gives
  the state of the next render.
\<close>

record state =
  capturedImage :: "CapturedImage option"
  isCapturing :: bool
  isUploading :: bool
  uploadError :: "string option"
  isClearImage :: bool
  captureError :: "CaptureError option"
  trace :: "event list"

record props =
  verificationId :: string
  onError_given :: bool

text \<open>
  What the outside world answers during one run of \<^verbatim>\<open>handleCapture\<close>: how
  \<^verbatim>\<open>captureImage()\<close> settles (\<open>None\<close> is \<^verbatim>\<open>null\<close>), the clock, how the two API calls
  settle, and the random part of the tracking id. The callbacks of the props, the
  functions of the camera hook and the state setters are taken to return normally. The value an OCR call resolves to is
  implementation-defined and is carried as text.
\<close>

record env =
  captureImage_result :: "(nat \<times> string) option settled"
  now :: nat
  processDocument_outcome :: "api_response settled"
  random_uuid :: string
  processOCRDocument_outcome :: "string settled"

section \<open>DocumentBackCapture.tsx: the handlers\<close>

definition emit :: "event \<Rightarrow> state \<Rightarrow> state" where
  "emit ev s = s\<lparr>trace := trace s @ [ev]\<rparr>"

definition setCapturedImage :: "CapturedImage option \<Rightarrow> state \<Rightarrow> state" where
  "setCapturedImage v s = emit (SetCapturedImage v) (s\<lparr>capturedImage := v\<rparr>)"

definition setIsCapturing :: "bool \<Rightarrow> state \<Rightarrow> state" where
  "setIsCapturing v s = emit (SetIsCapturing v) (s\<lparr>isCapturing := v\<rparr>)"

definition setIsUploading :: "bool \<Rightarrow> state \<Rightarrow> state" where
  "setIsUploading v s = emit (SetIsUploading v) (s\<lparr>isUploading := v\<rparr>)"

definition setUploadError :: "string option \<Rightarrow> state \<Rightarrow> state" where
  "setUploadError v s = emit (SetUploadError v) (s\<lparr>uploadError := v\<rparr>)"

definition setIsClearImage :: "bool \<Rightarrow> state \<Rightarrow> state" where
  "setIsClearImage v s = emit (SetIsClearImage v) (s\<lparr>isClearImage := v\<rparr>)"

definition setCaptureError :: "CaptureError option \<Rightarrow> state \<Rightarrow> state" where
  "setCaptureError v s = emit (SetCaptureError v) (s\<lparr>captureError := v\<rparr>)"

definition startCamera :: "string \<Rightarrow> state \<Rightarrow> state" where
  "startCamera facing s = emit (StartCamera facing) s"

definition stopCamera :: "state \<Rightarrow> state" where
  "stopCamera s = emit StopCamera s"

definition onNext :: "state \<Rightarrow> state" where
  "onNext s = emit OnNext s"

definition onCapture :: "CapturedImage \<Rightarrow> state \<Rightarrow> state" where
  "onCapture img s = emit (OnCapture img) s"

text \<open>\<^verbatim>\<open>if (onError) onError(m)\<close>: the callback is optional.\<close>

definition onError :: "props \<Rightarrow> string \<Rightarrow> state \<Rightarrow> state" where
  "onError p m s = (if onError_given p then emit (OnError m) s else s)"

text \<open>
  \<^verbatim>\<open>m || d\<close> on an optional string: \<^verbatim>\<open>undefined\<close> and the empty string are falsy.
\<close>

fun js_or :: "string option \<Rightarrow> string \<Rightarrow> string" where
  "js_or None d = d"
| "js_or (Some m) d = (if m = [] then d else m)"

text \<open>Lines 60 to 69.\<close>

definition handleRetake :: "state \<Rightarrow> state" where
  "handleRetake s =
     (let s1 = (case capturedImage s of
                  Some img \<Rightarrow> emit (RevokeObjectURL (url img)) s
                | None \<Rightarrow> s);
          s2 = setCapturedImage None s1;
          s3 = setUploadError None s2;
          s4 = setIsClearImage False s3;
          s5 = setCaptureError None s4
      in startCamera ''environment'' s5)"

text \<open>Lines 139 to 142 and 143 to 146: both actions of the error page.\<close>

definition onRetry :: "state \<Rightarrow> state" where
  "onRetry s = handleRetake (setCaptureError None s)"

text \<open>Lines 74 to 84: up to the call of \<^verbatim>\<open>processDocument\<close>, which is awaited.\<close>

definition checkQuality_begin :: "props \<Rightarrow> CapturedImage \<Rightarrow> state \<Rightarrow> state" where
  "checkQuality_begin p img s =
     (let s1 = setIsUploading True s;
          s2 = setUploadError None s1;
          s3 = setIsClearImage False s2;
          s4 = setCaptureError None s3
      in emit (ProcessDocument (blob img) ''document-back'' (verificationId p)) s4)"

text \<open>Lines 87 to 91: the accepting branch up to the call of \<^verbatim>\<open>processOCRDocument\<close>.\<close>

definition clear_begin :: "string \<Rightarrow> CapturedImage \<Rightarrow> state \<Rightarrow> state" where
  "clear_begin rnd img s =
     (let s1 = setIsClearImage True s;
          uuid = ''ML_'' @ rnd
      in emit (ProcessOCRDocument (blob img) uuid) s1)"

text \<open>Lines 92 and 93: after the OCR call has resolved.\<close>

definition clear_end :: "state \<Rightarrow> state" where
  "clear_end s = onNext (stopCamera s)"

text \<open>Lines 95 to 101: the \<^verbatim>\<open>else\<close> branch.\<close>

definition not_clear :: "props \<Rightarrow> api_response \<Rightarrow> state \<Rightarrow> state" where
  "not_clear p response s =
     (let s1 = setUploadError
                 (Some (js_or (response_message response) ''Document is not clear. Please retake.'')) s;
          s2 = setCaptureError (Some \<lparr>
                 error_type = Validation,
                 message = js_or (response_message response) ''Document is not clear. Please retake.'',
                 tips = [''Ensure the document is fully visible.'', ''Avoid glare or shadows.'']\<rparr>) s1
      in onError p (js_or (response_message response) ''Document is not clear. Please retake.'') s2)"

text \<open>Lines 104 to 114: the \<^verbatim>\<open>catch\<close> block.\<close>

definition catch_block :: "props \<Rightarrow> thrown \<Rightarrow> state \<Rightarrow> state" where
  "catch_block p error s =
     (let errorMessage =
            js_or (response_data_message error)
              (js_or (error_message error) ''Network error. Please try again.'');
          s1 = setUploadError (Some errorMessage) s;
          s2 = setCaptureError (Some \<lparr>
                 error_type = Network,
                 message = errorMessage,
                 tips = [''Check your internet connection.'', ''Try again later.'']\<rparr>) s1
      in onError p errorMessage s2)"

text \<open>Line 116: the \<^verbatim>\<open>finally\<close> block.\<close>

definition finally_block :: "state \<Rightarrow> state" where
  "finally_block s = setIsUploading False s"

text \<open>
  Lines 86 to 102, after \<^verbatim>\<open>processDocument\<close> has resolved, with the awaited OCR call
  inside the same \<^verbatim>\<open>try\<close>: a rejected OCR promise is thrown at the \<^verbatim>\<open>await\<close> and lands
  in the \<^verbatim>\<open>catch\<close> block, skipping lines 92 and 93.
\<close>

definition on_response :: "props \<Rightarrow> env \<Rightarrow> CapturedImage \<Rightarrow> api_response \<Rightarrow> state \<Rightarrow> state" where
  "on_response p e img response s =
     (if response_message response = Some ''CLEAR IMAGE'' then
        (let s1 = clear_begin (random_uuid e) img s
         in case processOCRDocument_outcome e of
              Resolved ocrResponse \<Rightarrow> clear_end s1
            | Rejected error \<Rightarrow> catch_block p error s1)
      else not_clear p response s)"

text \<open>
  Lines 71 to 118. The parameter is optional because of the guard of line 72.
\<close>

definition handleCheckQuality :: "props \<Rightarrow> env \<Rightarrow> CapturedImage option \<Rightarrow> state \<Rightarrow> state" where
  "handleCheckQuality p e img_opt s =
     (case img_opt of
        None \<Rightarrow> s
      | Some img \<Rightarrow>
          (let s1 = checkQuality_begin p img s;
               s2 = (case processDocument_outcome e of
                       Resolved response \<Rightarrow> on_response p e img response s1
                     | Rejected error \<Rightarrow> catch_block p error s1)
           in finally_block s2))"

text \<open>Lines 44 and 45: up to the call of \<^verbatim>\<open>captureImage\<close>, which is awaited.\<close>

definition capture_begin :: "state \<Rightarrow> state" where
  "capture_begin s = emit CaptureImage (setIsCapturing True s)"

text \<open>Lines 53 and 54, for the image built in lines 48 to 52.\<close>

definition capture_taken :: "CapturedImage \<Rightarrow> state \<Rightarrow> state" where
  "capture_taken img s = onCapture img (setCapturedImage (Some img) s)"

text \<open>Line 57.\<close>

definition capture_end :: "state \<Rightarrow> state" where
  "capture_end s = setIsCapturing False s"

text \<open>
  Lines 43 to 58. There is no \<^verbatim>\<open>try\<close> here: when \<^verbatim>\<open>captureImage()\<close> throws, the run ends
  at line 45 and line 57 is not reached.
\<close>

definition handleCapture :: "props \<Rightarrow> env \<Rightarrow> state \<Rightarrow> state" where
  "handleCapture p e s =
     (let s1 = capture_begin s
      in case captureImage_result e of
           Rejected error \<Rightarrow> s1
         | Resolved result \<Rightarrow>
             (let s2 = (case result of
                          Some (b, u) \<Rightarrow>
                            (let img = \<lparr>blob = b, url = u, timestamp = now e\<rparr>
                             in handleCheckQuality p e (Some img) (capture_taken img s1))
                        | None \<Rightarrow> s1)
              in capture_end s2))"

text \<open>The calls a handler has added to the trace of the state it started from.\<close>

definition calls :: "state \<Rightarrow> state \<Rightarrow> event list" where
  "calls s s' = drop (length (trace s)) (trace s')"

text \<open>The first \<open>a\<close> of a trace is followed by a \<open>b\<close>.\<close>

fun precedes :: "event \<Rightarrow> event \<Rightarrow> event list \<Rightarrow> bool" where
  "precedes a b [] = False"
| "precedes a b (x # xs) = (if x = a then b \<in> set xs else precedes a b xs)"

text \<open>Line 248: the \<^verbatim>\<open>disabled\<close> attribute of the capture button.\<close>

definition capture_disabled :: "bool \<Rightarrow> state \<Rightarrow> bool" where
  "capture_disabled isStreaming s \<longleftrightarrow> \<not> isStreaming \<or> isCapturing s \<or> isUploading s"

text \<open>
  Lines 120 and 245: the capture button is on the screen when no error page is shown
  and no captured image is displayed.
\<close>

definition capture_rendered :: "state \<Rightarrow> bool" where
  "capture_rendered s \<longleftrightarrow> captureError s = None \<and> capturedImage s = None"

text \<open>
  Lines 31 to 41: the initial values of the state cells, and the effect that starts the
  camera when the component is mounted.
\<close>

definition mount :: state where
  "mount = startCamera ''environment''
     \<lparr>capturedImage = None, isCapturing = False, isUploading = False, uploadError = None,
      isClearImage = False, captureError = None, trace = []\<rparr>"

section \<open>DocumentBackCapture.tsx: the screen between user actions\<close>

text \<open>
  A run of \<^verbatim>\<open>handleCapture\<close> is suspended at each \<^verbatim>\<open>await\<close>, and other handlers may run
  in between. A suspended run is a task: what it waits for, and the image it holds.
\<close>

datatype task =
    AwaitCaptureImage
  | AwaitProcessDocument CapturedImage
  | AwaitProcessOCR CapturedImage

text \<open>
  The screen: the state cells, the \<^verbatim>\<open>isStreaming\<close> flag of the camera hook, and the runs
  of \<^verbatim>\<open>handleCapture\<close> that have not finished.
\<close>

record screen =
  cells :: state
  isStreaming :: bool
  in_flight :: "task list"

text \<open>
  What can happen next: a click on the capture button, a click on one of the two
  buttons of the error page, the camera hook changing \<^verbatim>\<open>isStreaming\<close>, and an awaited
  promise of the task at an index settling.
\<close>

datatype action =
    Click_capture
  | Click_retry
  | Camera bool
  | CaptureImage_settles nat "(nat \<times> string) option settled" nat
  | ProcessDocument_settles nat "api_response settled" string
  | ProcessOCR_settles nat "string settled"

definition remove_nth :: "nat \<Rightarrow> 'a list \<Rightarrow> 'a list" where
  "remove_nth i xs = take i xs @ drop (Suc i) xs"

definition waits_for :: "screen \<Rightarrow> nat \<Rightarrow> task \<Rightarrow> bool" where
  "waits_for c i t \<longleftrightarrow> i < length (in_flight c) \<and> in_flight c ! i = t"

text \<open>
  One step. A click is possible only on a button that is on the screen and enabled
  (lines 120, 245 and 248). A handler runs from the settled promise to its next
  \<^verbatim>\<open>await\<close> or to its end without interruption. \<open>None\<close>: the action is not possible.
\<close>

fun step :: "props \<Rightarrow> screen \<Rightarrow> action \<Rightarrow> screen option" where
  "step p c Click_capture =
     (if capture_rendered (cells c) \<and> \<not> capture_disabled (isStreaming c) (cells c)
      then Some (c\<lparr>cells := capture_begin (cells c),
                    in_flight := in_flight c @ [AwaitCaptureImage]\<rparr>)
      else None)"
| "step p c Click_retry =
     (if captureError (cells c) \<noteq> None
      then Some (c\<lparr>cells := onRetry (cells c)\<rparr>)
      else None)"
| "step p c (Camera b) = Some (c\<lparr>isStreaming := b\<rparr>)"
| "step p c (CaptureImage_settles i outcome t) =
     (if waits_for c i AwaitCaptureImage then
        (case outcome of
           Rejected error \<Rightarrow>
             Some (c\<lparr>in_flight := remove_nth i (in_flight c)\<rparr>)
         | Resolved None \<Rightarrow>
             Some (c\<lparr>cells := capture_end (cells c),
                      in_flight := remove_nth i (in_flight c)\<rparr>)
         | Resolved (Some (b, u)) \<Rightarrow>
             (let img = \<lparr>blob = b, url = u, timestamp = t\<rparr>
              in Some (c\<lparr>cells := checkQuality_begin p img (capture_taken img (cells c)),
                          in_flight := (in_flight c)[i := AwaitProcessDocument img]\<rparr>)))
      else None)"
| "step p c (ProcessDocument_settles i outcome rnd) =
     (if i < length (in_flight c) then
        (case in_flight c ! i of
           AwaitProcessDocument img \<Rightarrow>
             (case outcome of
                Resolved response \<Rightarrow>
                  if response_message response = Some ''CLEAR IMAGE''
                  then Some (c\<lparr>cells := clear_begin rnd img (cells c),
                                in_flight := (in_flight c)[i := AwaitProcessOCR img]\<rparr>)
                  else Some (c\<lparr>cells := capture_end (finally_block (not_clear p response (cells c))),
                                in_flight := remove_nth i (in_flight c)\<rparr>)
              | Rejected error \<Rightarrow>
                  Some (c\<lparr>cells := capture_end (finally_block (catch_block p error (cells c))),
                           in_flight := remove_nth i (in_flight c)\<rparr>))
         | _ \<Rightarrow> None)
      else None)"
| "step p c (ProcessOCR_settles i outcome) =
     (if i < length (in_flight c) then
        (case in_flight c ! i of
           AwaitProcessOCR img \<Rightarrow>
             (case outcome of
                Resolved ocrResponse \<Rightarrow>
                  Some (c\<lparr>cells := capture_end (finally_block (clear_end (cells c))),
                           in_flight := remove_nth i (in_flight c)\<rparr>)
              | Rejected error \<Rightarrow>
                  Some (c\<lparr>cells := capture_end (finally_block (catch_block p error (cells c))),
                           in_flight := remove_nth i (in_flight c)\<rparr>))
         | _ \<Rightarrow> None)
      else None)"

fun run :: "props \<Rightarrow> screen \<Rightarrow> action list \<Rightarrow> screen option" where
  "run p c [] = Some c"
| "run p c (a # as) = (case step p c a of None \<Rightarrow> None | Some c' \<Rightarrow> run p c' as)"

text \<open>The screen after mounting: the camera has been asked to start and is not yet streaming.\<close>

definition mounted :: screen where
  "mounted = \<lparr>cells = mount, isStreaming = False, in_flight = []\<rparr>"

text \<open>The quality-check uploads that have been sent and have not settled.\<close>

definition uploads_outstanding :: "screen \<Rightarrow> nat" where
  "uploads_outstanding c =
     length (filter (\<lambda>t. case t of AwaitProcessDocument img \<Rightarrow> True | _ \<Rightarrow> False) (in_flight c))"

text \<open>
  The invariant of the screen: no run of \<^verbatim>\<open>handleCapture\<close> is suspended, or exactly one
  is and \<^verbatim>\<open>isCapturing\<close> is set.
\<close>

definition one_cycle :: "screen \<Rightarrow> bool" where
  "one_cycle c \<longleftrightarrow> in_flight c = [] \<or> (length (in_flight c) = 1 \<and> isCapturing (cells c))"

text \<open>
  The steps of one undisturbed run of \<^verbatim>\<open>handleCapture\<close> in an environment: the click, and
  each awaited promise settling as the environment says.
\<close>

definition cycle :: "env \<Rightarrow> action list" where
  "cycle e =
     Click_capture # CaptureImage_settles 0 (captureImage_result e) (now e) #
     (case captureImage_result e of
        Resolved (Some r) \<Rightarrow>
          ProcessDocument_settles 0 (processDocument_outcome e) (random_uuid e) #
          (case processDocument_outcome e of
             Resolved response \<Rightarrow>
               if response_message response = Some ''CLEAR IMAGE''
               then [ProcessOCR_settles 0 (processOCRDocument_outcome e)] else []
           | Rejected error \<Rightarrow> [])
      | _ \<Rightarrow> [])"

section \<open>CountrySelection.tsx\<close>

record CountryRecord =
  country :: string
  country_code :: string

text \<open>
  A JavaScript \<^verbatim>\<open>Map\<close> keeps its entries in the order in which their keys were first
  set: \<^verbatim>\<open>set\<close> on a key that is present replaces the value in place, \<^verbatim>\<open>set\<close> on a new
  key appends an entry. \<^verbatim>\<open>new Map(iterable)\<close> sets each entry in turn, and
  \<^verbatim>\<open>Array.from(m.entries())\<close> is the list of entries in that order.
\<close>

fun map_set :: "'k \<Rightarrow> 'v \<Rightarrow> ('k \<times> 'v) list \<Rightarrow> ('k \<times> 'v) list" where
  "map_set k v [] = [(k, v)]"
| "map_set k v ((k', v') # m) =
     (if k' = k then (k, v) # m else (k', v') # map_set k v m)"

definition new_Map :: "('k \<times> 'v) list \<Rightarrow> ('k \<times> 'v) list" where
  "new_Map entries = foldl (\<lambda>m (k, v). map_set k v m) [] entries"

text \<open>
  Lines 17 to 24. The table \<^verbatim>\<open>metadata.json\<close> and the collation behind
  \<^verbatim>\<open>localeCompare\<close> are parameters. \<^verbatim>\<open>Array.prototype.sort\<close> is a stable sort, and the
  stable sort of a list under a comparator is unique: it is the insertion sort of the
  library.
\<close>

definition countries :: "string comparator \<Rightarrow> CountryRecord list \<Rightarrow> (string \<times> string) list" where
  "countries localeCompare metadata =
     Sorting_Algorithms.sort (key snd localeCompare)
       (new_Map (map (\<lambda>item. (country_code item, country item)) metadata))"

text \<open>
  The page as far as \<^verbatim>\<open>handleChange\<close> touches it: the clock in milliseconds, the
  timeouts that are pending (when each is due, and the call its callback makes), and
  the calls made so far.
\<close>

record page =
  clock :: nat
  timers :: "(nat \<times> event) list"
  called :: "event list"

definition setTimeout :: "event \<Rightarrow> nat \<Rightarrow> page \<Rightarrow> page" where
  "setTimeout callback delay w = w\<lparr>timers := timers w @ [(clock w + delay, callback)]\<rparr>"

definition onSelectCountryCode :: "string \<Rightarrow> page \<Rightarrow> page" where
  "onSelectCountryCode countryCode w = w\<lparr>called := called w @ [OnSelectCountryCode countryCode]\<rparr>"

text \<open>Lines 26 to 32. The empty string is the only falsy string.\<close>

definition handleChange :: "string \<Rightarrow> page \<Rightarrow> page" where
  "handleChange value w =
     (let w1 = onSelectCountryCode value w
      in if value \<noteq> [] then setTimeout OnNext 100 w1 else w1)"

text \<open>
  Time passes: \<open>d\<close> milliseconds later the timeouts that are due have fired, in the
  order of their due times, and among equal due times in the order they were set.
\<close>

definition due :: "nat \<Rightarrow> nat \<times> event \<Rightarrow> bool" where
  "due t timer \<longleftrightarrow> fst timer \<le> t"

definition elapse :: "nat \<Rightarrow> page \<Rightarrow> page" where
  "elapse d w =
     (let t = clock w + d
      in w\<lparr>clock := t,
           timers := filter (\<lambda>timer. \<not> due t timer) (timers w),
           called := called w @ map snd (sort_key fst (filter (due t) (timers w)))\<rparr>)"

section \<open>Reading traces\<close>

fun is_upload :: "event \<Rightarrow> bool" where
  "is_upload (ProcessDocument b t v) = True"
| "is_upload ev = False"

fun is_ocr :: "event \<Rightarrow> bool" where
  "is_ocr (ProcessOCRDocument b u) = True"
| "is_ocr ev = False"

section \<open>Sample inputs\<close>

definition sample_props :: props where
  "sample_props = \<lparr>verificationId = ''session-1'', onError_given = True\<rparr>"

definition sample_image :: CapturedImage where
  "sample_image = \<lparr>blob = 7, url = ''blob:back'', timestamp = 0\<rparr>"

definition no_message :: thrown where
  "no_message = \<lparr>response_data_message = None, error_message = None\<rparr>"

definition sample_env :: "api_response settled \<Rightarrow> string settled \<Rightarrow> env" where
  "sample_env document ocr =
     \<lparr>captureImage_result = Resolved (Some (7, ''blob:back'')), now = 0,
      processDocument_outcome = document, random_uuid = ''k3x9'',
      processOCRDocument_outcome = ocr\<rparr>"

definition sample_table :: "CountryRecord list" where
  "sample_table =
     [\<lparr>country = ''United States'', country_code = ''US''\<rparr>,
      \<lparr>country = ''Canada'', country_code = ''CA''\<rparr>,
      \<lparr>country = ''USA'', country_code = ''US''\<rparr>]"

definition sample_page :: page where
  "sample_page = \<lparr>clock = 0, timers = [], called = []\<rparr>"

section \<open>What each call does to the state cells and to the trace\<close>

lemma emit_simps:
  "capturedImage (emit ev s) = capturedImage s"
  "isCapturing (emit ev s) = isCapturing s"
  "isUploading (emit ev s) = isUploading s"
  "uploadError (emit ev s) = uploadError s"
  "isClearImage (emit ev s) = isClearImage s"
  "captureError (emit ev s) = captureError s"
  "trace (emit ev s) = trace s @ [ev]"
  by (simp_all add: emit_def)

lemma setCapturedImage_simps:
  "capturedImage (setCapturedImage v s) = v"
  "isCapturing (setCapturedImage v s) = isCapturing s"
  "isUploading (setCapturedImage v s) = isUploading s"
  "uploadError (setCapturedImage v s) = uploadError s"
  "isClearImage (setCapturedImage v s) = isClearImage s"
  "captureError (setCapturedImage v s) = captureError s"
  "trace (setCapturedImage v s) = trace s @ [SetCapturedImage v]"
  by (simp_all add: setCapturedImage_def emit_def)

lemma setIsCapturing_simps:
  "capturedImage (setIsCapturing v s) = capturedImage s"
  "isCapturing (setIsCapturing v s) = v"
  "isUploading (setIsCapturing v s) = isUploading s"
  "uploadError (setIsCapturing v s) = uploadError s"
  "isClearImage (setIsCapturing v s) = isClearImage s"
  "captureError (setIsCapturing v s) = captureError s"
  "trace (setIsCapturing v s) = trace s @ [SetIsCapturing v]"
  by (simp_all add: setIsCapturing_def emit_def)

lemma setIsUploading_simps:
  "capturedImage (setIsUploading v s) = capturedImage s"
  "isCapturing (setIsUploading v s) = isCapturing s"
  "isUploading (setIsUploading v s) = v"
  "uploadError (setIsUploading v s) = uploadError s"
  "isClearImage (setIsUploading v s) = isClearImage s"
  "captureError (setIsUploading v s) = captureError s"
  "trace (setIsUploading v s) = trace s @ [SetIsUploading v]"
  by (simp_all add: setIsUploading_def emit_def)

lemma setUploadError_simps:
  "capturedImage (setUploadError v s) = capturedImage s"
  "isCapturing (setUploadError v s) = isCapturing s"
  "isUploading (setUploadError v s) = isUploading s"
  "uploadError (setUploadError v s) = v"
  "isClearImage (setUploadError v s) = isClearImage s"
  "captureError (setUploadError v s) = captureError s"
  "trace (setUploadError v s) = trace s @ [SetUploadError v]"
  by (simp_all add: setUploadError_def emit_def)

lemma setIsClearImage_simps:
  "capturedImage (setIsClearImage v s) = capturedImage s"
  "isCapturing (setIsClearImage v s) = isCapturing s"
  "isUploading (setIsClearImage v s) = isUploading s"
  "uploadError (setIsClearImage v s) = uploadError s"
  "isClearImage (setIsClearImage v s) = v"
  "captureError (setIsClearImage v s) = captureError s"
  "trace (setIsClearImage v s) = trace s @ [SetIsClearImage v]"
  by (simp_all add: setIsClearImage_def emit_def)

lemma setCaptureError_simps:
  "capturedImage (setCaptureError v s) = capturedImage s"
  "isCapturing (setCaptureError v s) = isCapturing s"
  "isUploading (setCaptureError v s) = isUploading s"
  "uploadError (setCaptureError v s) = uploadError s"
  "isClearImage (setCaptureError v s) = isClearImage s"
  "captureError (setCaptureError v s) = v"
  "trace (setCaptureError v s) = trace s @ [SetCaptureError v]"
  by (simp_all add: setCaptureError_def emit_def)

lemmas cell_simps =
  emit_simps setCapturedImage_simps setIsCapturing_simps setIsUploading_simps
  setUploadError_simps setIsClearImage_simps setCaptureError_simps

lemmas handler_defs =
  startCamera_def stopCamera_def onNext_def onCapture_def onError_def
  checkQuality_begin_def clear_begin_def clear_end_def not_clear_def catch_block_def
  finally_block_def on_response_def handleCheckQuality_def capture_begin_def
  capture_taken_def capture_end_def handleCapture_def handleRetake_def onRetry_def

lemma checkQuality_begin_simps:
  "capturedImage (checkQuality_begin p img s) = capturedImage s"
  "isCapturing (checkQuality_begin p img s) = isCapturing s"
  "isUploading (checkQuality_begin p img s) = True"
  "uploadError (checkQuality_begin p img s) = None"
  "isClearImage (checkQuality_begin p img s) = False"
  "captureError (checkQuality_begin p img s) = None"
  "trace (checkQuality_begin p img s) = trace s @
     [SetIsUploading True, SetUploadError None, SetIsClearImage False, SetCaptureError None,
      ProcessDocument (blob img) ''document-back'' (verificationId p)]"
  by (simp_all add: checkQuality_begin_def cell_simps Let_def)

lemma clear_begin_simps:
  "capturedImage (clear_begin rnd img s) = capturedImage s"
  "isCapturing (clear_begin rnd img s) = isCapturing s"
  "isUploading (clear_begin rnd img s) = isUploading s"
  "uploadError (clear_begin rnd img s) = uploadError s"
  "isClearImage (clear_begin rnd img s) = True"
  "captureError (clear_begin rnd img s) = captureError s"
  "trace (clear_begin rnd img s) = trace s @
     [SetIsClearImage True, ProcessOCRDocument (blob img) (''ML_'' @ rnd)]"
  by (simp_all add: clear_begin_def cell_simps Let_def)

lemma clear_end_simps:
  "capturedImage (clear_end s) = capturedImage s"
  "isCapturing (clear_end s) = isCapturing s"
  "isUploading (clear_end s) = isUploading s"
  "uploadError (clear_end s) = uploadError s"
  "isClearImage (clear_end s) = isClearImage s"
  "captureError (clear_end s) = captureError s"
  "trace (clear_end s) = trace s @ [StopCamera, OnNext]"
  by (simp_all add: clear_end_def stopCamera_def onNext_def cell_simps)

lemma not_clear_simps:
  "capturedImage (not_clear p response s) = capturedImage s"
  "isCapturing (not_clear p response s) = isCapturing s"
  "isUploading (not_clear p response s) = isUploading s"
  "uploadError (not_clear p response s) =
     Some (js_or (response_message response) ''Document is not clear. Please retake.'')"
  "isClearImage (not_clear p response s) = isClearImage s"
  "captureError (not_clear p response s) = Some \<lparr>error_type = Validation,
     message = js_or (response_message response) ''Document is not clear. Please retake.'',
     tips = [''Ensure the document is fully visible.'', ''Avoid glare or shadows.'']\<rparr>"
  "trace (not_clear p response s) = trace s @
     SetUploadError (uploadError (not_clear p response s)) #
     SetCaptureError (captureError (not_clear p response s)) #
     (if onError_given p
      then [OnError (js_or (response_message response) ''Document is not clear. Please retake.'')]
      else [])"
  by (simp_all add: not_clear_def onError_def cell_simps Let_def)

lemma catch_block_simps:
  "capturedImage (catch_block p error s) = capturedImage s"
  "isCapturing (catch_block p error s) = isCapturing s"
  "isUploading (catch_block p error s) = isUploading s"
  "uploadError (catch_block p error s) =
     Some (js_or (response_data_message error)
            (js_or (error_message error) ''Network error. Please try again.''))"
  "isClearImage (catch_block p error s) = isClearImage s"
  "captureError (catch_block p error s) = Some \<lparr>error_type = Network,
     message = js_or (response_data_message error)
                 (js_or (error_message error) ''Network error. Please try again.''),
     tips = [''Check your internet connection.'', ''Try again later.'']\<rparr>"
  "trace (catch_block p error s) = trace s @
     SetUploadError (uploadError (catch_block p error s)) #
     SetCaptureError (captureError (catch_block p error s)) #
     (if onError_given p
      then [OnError (js_or (response_data_message error)
              (js_or (error_message error) ''Network error. Please try again.''))]
      else [])"
  by (simp_all add: catch_block_def onError_def cell_simps Let_def)

lemma finally_block_simps:
  "capturedImage (finally_block s) = capturedImage s"
  "isCapturing (finally_block s) = isCapturing s"
  "isUploading (finally_block s) = False"
  "uploadError (finally_block s) = uploadError s"
  "isClearImage (finally_block s) = isClearImage s"
  "captureError (finally_block s) = captureError s"
  "trace (finally_block s) = trace s @ [SetIsUploading False]"
  by (simp_all add: finally_block_def cell_simps)

lemma capture_begin_simps:
  "capturedImage (capture_begin s) = capturedImage s"
  "isCapturing (capture_begin s) = True"
  "isUploading (capture_begin s) = isUploading s"
  "uploadError (capture_begin s) = uploadError s"
  "isClearImage (capture_begin s) = isClearImage s"
  "captureError (capture_begin s) = captureError s"
  "trace (capture_begin s) = trace s @ [SetIsCapturing True, CaptureImage]"
  by (simp_all add: capture_begin_def cell_simps)

lemma capture_taken_simps:
  "capturedImage (capture_taken img s) = Some img"
  "isCapturing (capture_taken img s) = isCapturing s"
  "isUploading (capture_taken img s) = isUploading s"
  "uploadError (capture_taken img s) = uploadError s"
  "isClearImage (capture_taken img s) = isClearImage s"
  "captureError (capture_taken img s) = captureError s"
  "trace (capture_taken img s) = trace s @ [SetCapturedImage (Some img), OnCapture img]"
  by (simp_all add: capture_taken_def onCapture_def cell_simps)

lemma capture_end_simps:
  "capturedImage (capture_end s) = capturedImage s"
  "isCapturing (capture_end s) = False"
  "isUploading (capture_end s) = isUploading s"
  "uploadError (capture_end s) = uploadError s"
  "isClearImage (capture_end s) = isClearImage s"
  "captureError (capture_end s) = captureError s"
  "trace (capture_end s) = trace s @ [SetIsCapturing False]"
  by (simp_all add: capture_end_def cell_simps)

lemma handleRetake_simps:
  "capturedImage (handleRetake s) = None"
  "isCapturing (handleRetake s) = isCapturing s"
  "isUploading (handleRetake s) = isUploading s"
  "uploadError (handleRetake s) = None"
  "isClearImage (handleRetake s) = False"
  "captureError (handleRetake s) = None"
  "trace (handleRetake s) = trace s @
     (case capturedImage s of Some img \<Rightarrow> [RevokeObjectURL (url img)] | None \<Rightarrow> []) @
     [SetCapturedImage None, SetUploadError None, SetIsClearImage False, SetCaptureError None,
      StartCamera ''environment'']"
  by (simp_all add: handleRetake_def startCamera_def cell_simps Let_def split: option.split)

lemma onRetry_simps:
  "capturedImage (onRetry s) = None"
  "isCapturing (onRetry s) = isCapturing s"
  "isUploading (onRetry s) = isUploading s"
  "uploadError (onRetry s) = None"
  "isClearImage (onRetry s) = False"
  "captureError (onRetry s) = None"
  "trace (onRetry s) = trace s @ SetCaptureError None #
     (case capturedImage s of Some img \<Rightarrow> [RevokeObjectURL (url img)] | None \<Rightarrow> []) @
     [SetCapturedImage None, SetUploadError None, SetIsClearImage False, SetCaptureError None,
      StartCamera ''environment'']"
  by (simp_all add: onRetry_def handleRetake_simps cell_simps)

lemmas segment_simps =
  checkQuality_begin_simps clear_begin_simps clear_end_simps not_clear_simps catch_block_simps
  finally_block_simps capture_begin_simps capture_taken_simps capture_end_simps

text \<open>The four ways through \<^verbatim>\<open>handleCheckQuality\<close>, and the two through \<^verbatim>\<open>handleCapture\<close>.\<close>

lemma handleCheckQuality_rejected:
  "processDocument_outcome e = Rejected error \<Longrightarrow>
   handleCheckQuality p e (Some img) s =
     finally_block (catch_block p error (checkQuality_begin p img s))"
  by (simp add: handleCheckQuality_def)

lemma handleCheckQuality_not_clear:
  "processDocument_outcome e = Resolved response \<Longrightarrow>
   response_message response \<noteq> Some ''CLEAR IMAGE'' \<Longrightarrow>
   handleCheckQuality p e (Some img) s =
     finally_block (not_clear p response (checkQuality_begin p img s))"
  by (simp add: handleCheckQuality_def on_response_def)

lemma handleCheckQuality_clear_resolved:
  "processDocument_outcome e = Resolved response \<Longrightarrow>
   response_message response = Some ''CLEAR IMAGE'' \<Longrightarrow>
   processOCRDocument_outcome e = Resolved ocrResponse \<Longrightarrow>
   handleCheckQuality p e (Some img) s =
     finally_block (clear_end (clear_begin (random_uuid e) img (checkQuality_begin p img s)))"
  by (simp add: handleCheckQuality_def on_response_def)

lemma handleCheckQuality_clear_rejected:
  "processDocument_outcome e = Resolved response \<Longrightarrow>
   response_message response = Some ''CLEAR IMAGE'' \<Longrightarrow>
   processOCRDocument_outcome e = Rejected error \<Longrightarrow>
   handleCheckQuality p e (Some img) s =
     finally_block (catch_block p error
       (clear_begin (random_uuid e) img (checkQuality_begin p img s)))"
  by (simp add: handleCheckQuality_def on_response_def)

lemma handleCapture_thrown:
  "captureImage_result e = Rejected error \<Longrightarrow> handleCapture p e s = capture_begin s"
  by (simp add: handleCapture_def)

lemma handleCapture_nothing:
  "captureImage_result e = Resolved None \<Longrightarrow>
   handleCapture p e s = capture_end (capture_begin s)"
  by (simp add: handleCapture_def)

lemma handleCapture_taken:
  "captureImage_result e = Resolved (Some (b, u)) \<Longrightarrow>
   handleCapture p e s =
     capture_end (handleCheckQuality p e (Some \<lparr>blob = b, url = u, timestamp = now e\<rparr>)
       (capture_taken \<lparr>blob = b, url = u, timestamp = now e\<rparr> (capture_begin s)))"
  by (simp add: handleCapture_def Let_def)

section \<open>DocumentBackCapture.tsx: the quality check and the OCR submission\<close>

text \<open>
  C1, as the code has it. For every response of the quality-check upload whose message
  is exactly "CLEAR IMAGE": when the OCR call that follows resolves, the screen calls
  \<^verbatim>\<open>stopCamera\<close> once and \<^verbatim>\<open>onNext\<close> once, \<^verbatim>\<open>stopCamera\<close> first; when the OCR call
  throws, the \<^verbatim>\<open>await\<close> of line 91 leaves the \<^verbatim>\<open>try\<close> block and neither is called.
\<close>

theorem clear_image_advances_once_if_ocr_resolves:
  assumes "processDocument_outcome e = Resolved response"
    and "response_message response = Some ''CLEAR IMAGE''"
  shows "(let cs = calls s (handleCheckQuality p e (Some img) s) in
          case processOCRDocument_outcome e of
            Resolved ocrResponse \<Rightarrow>
              count_list cs OnNext = 1 \<and> count_list cs StopCamera = 1 \<and>
              precedes StopCamera OnNext cs
          | Rejected error \<Rightarrow>
              count_list cs OnNext = 0 \<and> count_list cs StopCamera = 0)"
proof (cases "processOCRDocument_outcome e")
  case (Resolved ocrResponse)
  show ?thesis
    by (simp add: handleCheckQuality_clear_resolved [OF assms Resolved] Resolved
          segment_simps calls_def)
next
  case (Rejected error)
  show ?thesis
    by (simp add: handleCheckQuality_clear_rejected [OF assms Rejected] Rejected
          segment_simps calls_def)
qed

theorem clear_image_advances_once_if_ocr_resolves_witness:
  "(let cs = calls mount (handleCheckQuality sample_props
        (sample_env (Resolved (ApiResponse (Some ''CLEAR IMAGE''))) (Resolved ''{}''))
        (Some sample_image) mount)
    in count_list cs OnNext = 1 \<and> count_list cs StopCamera = 1 \<and>
       precedes StopCamera OnNext cs)"
  using clear_image_advances_once_if_ocr_resolves
    [of "sample_env (Resolved (ApiResponse (Some ''CLEAR IMAGE''))) (Resolved ''{}'')"
        "ApiResponse (Some ''CLEAR IMAGE'')" mount sample_props sample_image]
  by (simp add: sample_env_def)

text \<open>
  C1, as the claim states it, fails where the response is "CLEAR IMAGE" and the OCR call
  throws: \<^verbatim>\<open>onNext\<close> is not called.
\<close>

theorem clear_image_with_failing_ocr_does_not_advance:
  "processDocument_outcome
     (sample_env (Resolved (ApiResponse (Some ''CLEAR IMAGE''))) (Rejected no_message))
     = Resolved (ApiResponse (Some ''CLEAR IMAGE'')) \<and>
   response_message (ApiResponse (Some ''CLEAR IMAGE'')) = Some ''CLEAR IMAGE'' \<and>
   count_list (calls mount (handleCheckQuality sample_props
        (sample_env (Resolved (ApiResponse (Some ''CLEAR IMAGE''))) (Rejected no_message))
        (Some sample_image) mount)) OnNext \<noteq> 1"
  by (simp add: handleCheckQuality_clear_rejected [where error = no_message]
        sample_env_def segment_simps calls_def)

text \<open>
  C2, as the code has it. \<^verbatim>\<open>processOCRDocument\<close> is called exactly when the quality
  check has resolved with the message "CLEAR IMAGE", and after the call of
  \<^verbatim>\<open>processDocument\<close>. The value the OCR call resolves to is ignored: whenever it
  resolves, \<^verbatim>\<open>onNext\<close> is called and no error is set. When the OCR call throws,
  \<^verbatim>\<open>onNext\<close> is not called and the failure is shown as a network-category error.
\<close>

theorem ocr_after_acceptance_and_thrown_ocr_failure_surfaces:
  "(let s' = handleCheckQuality p e (Some img) s; cs = calls s s' in
      (list_ex is_ocr cs \<longleftrightarrow>
         (\<exists>response. processDocument_outcome e = Resolved response \<and>
            response_message response = Some ''CLEAR IMAGE'')) \<and>
      (list_ex is_ocr cs \<longrightarrow>
         precedes (ProcessDocument (blob img) ''document-back'' (verificationId p))
           (ProcessOCRDocument (blob img) (''ML_'' @ random_uuid e)) cs \<and>
         (case processOCRDocument_outcome e of
            Resolved ocrResponse \<Rightarrow>
              OnNext \<in> set cs \<and> captureError s' = None \<and> uploadError s' = None
          | Rejected error \<Rightarrow>
              OnNext \<notin> set cs \<and> uploadError s' \<noteq> None \<and>
              (\<exists>m. captureError s' = Some \<lparr>error_type = Network, message = m,
                 tips = [''Check your internet connection.'', ''Try again later.'']\<rparr>))))"
proof (cases "processDocument_outcome e")
  case (Rejected error)
  show ?thesis
    by (simp add: handleCheckQuality_rejected [OF Rejected] Rejected segment_simps calls_def)
next
  case (Resolved response)
  show ?thesis
  proof (cases "response_message response = Some ''CLEAR IMAGE''")
    case False
    show ?thesis
      by (simp add: handleCheckQuality_not_clear [OF Resolved False] Resolved False
            segment_simps calls_def)
  next
    case True
    show ?thesis
    proof (cases "processOCRDocument_outcome e")
      case ocr: (Resolved ocrResponse)
      show ?thesis
        by (simp add: handleCheckQuality_clear_resolved [OF Resolved True ocr] Resolved True ocr
              segment_simps calls_def)
    next
      case ocr: (Rejected error)
      show ?thesis
        by (simp add: handleCheckQuality_clear_rejected [OF Resolved True ocr] Resolved True ocr
              segment_simps calls_def)
    qed
  qed
qed

theorem ocr_after_acceptance_and_thrown_ocr_failure_surfaces_witness:
  "(let s' = handleCheckQuality sample_props
        (sample_env (Resolved (ApiResponse (Some ''CLEAR IMAGE''))) (Resolved ''failed''))
        (Some sample_image) mount;
        cs = calls mount s'
    in list_ex is_ocr cs \<and> OnNext \<in> set cs \<and> captureError s' = None \<and>
       uploadError s' = None)"
  using ocr_after_acceptance_and_thrown_ocr_failure_surfaces
    [of sample_props
        "sample_env (Resolved (ApiResponse (Some ''CLEAR IMAGE''))) (Resolved ''failed'')"
        sample_image mount]
  by (simp add: sample_env_def Let_def)

text \<open>
  C2, as the claim states it, fails where the OCR call throws: the OCR call has been
  made, \<^verbatim>\<open>onNext\<close> is not called, and the user is shown a network error.
\<close>

theorem ocr_failure_blocks_navigation_and_is_shown:
  "list_ex is_ocr (calls mount (handleCheckQuality sample_props
       (sample_env (Resolved (ApiResponse (Some ''CLEAR IMAGE''))) (Rejected no_message))
       (Some sample_image) mount)) \<and>
   OnNext \<notin> set (calls mount (handleCheckQuality sample_props
       (sample_env (Resolved (ApiResponse (Some ''CLEAR IMAGE''))) (Rejected no_message))
       (Some sample_image) mount)) \<and>
   captureError (handleCheckQuality sample_props
       (sample_env (Resolved (ApiResponse (Some ''CLEAR IMAGE''))) (Rejected no_message))
       (Some sample_image) mount) =
     Some \<lparr>error_type = Network, message = ''Network error. Please try again.'',
       tips = [''Check your internet connection.'', ''Try again later.'']\<rparr>"
  by (simp add: handleCheckQuality_clear_rejected [where error = no_message]
        sample_env_def segment_simps calls_def no_message_def)

text \<open>
  C3. When the quality check resolves, the image is accepted (\<^verbatim>\<open>isClearImage\<close> is set, and
  the OCR call is made) if and only if the message is exactly "CLEAR IMAGE". With any
  other message, the empty and the absent one included, the screen does not advance
  and a validation error is set; an empty or absent message is replaced by
  "Document is not clear. Please retake.".
\<close>

theorem accepted_iff_message_is_clear_image:
  assumes "processDocument_outcome e = Resolved response"
  shows "(let s' = handleCheckQuality p e (Some img) s; cs = calls s s' in
      (isClearImage s' \<longleftrightarrow> response_message response = Some ''CLEAR IMAGE'') \<and>
      (list_ex is_ocr cs \<longleftrightarrow> response_message response = Some ''CLEAR IMAGE'') \<and>
      (response_message response \<noteq> Some ''CLEAR IMAGE'' \<longrightarrow>
         OnNext \<notin> set cs \<and>
         (\<exists>m. captureError s' = Some \<lparr>error_type = Validation, message = m,
            tips = [''Ensure the document is fully visible.'', ''Avoid glare or shadows.'']\<rparr>)) \<and>
      (response_message response = None \<or> response_message response = Some [] \<longrightarrow>
         uploadError s' = Some ''Document is not clear. Please retake.'' \<and>
         captureError s' = Some \<lparr>error_type = Validation,
            message = ''Document is not clear. Please retake.'',
            tips = [''Ensure the document is fully visible.'', ''Avoid glare or shadows.'']\<rparr>))"
proof (cases "response_message response = Some ''CLEAR IMAGE''")
  case False
  show ?thesis
    by (auto simp add: handleCheckQuality_not_clear [OF assms False] False
          segment_simps calls_def)
next
  case True
  show ?thesis
  proof (cases "processOCRDocument_outcome e")
    case (Resolved ocrResponse)
    show ?thesis
      by (simp add: handleCheckQuality_clear_resolved [OF assms True Resolved] True
            segment_simps calls_def)
  next
    case (Rejected error)
    show ?thesis
      by (simp add: handleCheckQuality_clear_rejected [OF assms True Rejected] True
            segment_simps calls_def)
  qed
qed

theorem accepted_iff_message_is_clear_image_witness:
  "(let s' = handleCheckQuality sample_props
        (sample_env (Resolved (ApiResponse (Some ''clear image''))) (Resolved ''{}''))
        (Some sample_image) mount
    in \<not> isClearImage s' \<and> OnNext \<notin> set (calls mount s') \<and>
       (\<exists>m. captureError s' = Some \<lparr>error_type = Validation, message = m,
            tips = [''Ensure the document is fully visible.'', ''Avoid glare or shadows.'']\<rparr>))"
  using accepted_iff_message_is_clear_image
    [of "sample_env (Resolved (ApiResponse (Some ''clear image''))) (Resolved ''{}'')"
        "ApiResponse (Some ''clear image'')" sample_props sample_image mount]
  by (simp add: sample_env_def Let_def)

text \<open>
  C4. A response with a message other than "CLEAR IMAGE" gives a validation-category
  error that carries the message verbatim, or "Document is not clear. Please retake."
  when the message is empty or absent. A thrown failure, of the upload or of the OCR
  call, gives a network-category error with the two connectivity tips; its message is
  the one the thrown value carries, or "Network error. Please try again." when it
  carries none.
\<close>

theorem errors_are_categorised:
  "(let s' = handleCheckQuality p e (Some img) s in
      (\<forall>response m. processDocument_outcome e = Resolved response \<and>
          response_message response = Some m \<and> m \<noteq> [] \<and> m \<noteq> ''CLEAR IMAGE'' \<longrightarrow>
          uploadError s' = Some m \<and>
          captureError s' = Some \<lparr>error_type = Validation, message = m,
            tips = [''Ensure the document is fully visible.'', ''Avoid glare or shadows.'']\<rparr>) \<and>
      (\<forall>response. processDocument_outcome e = Resolved response \<and>
          (response_message response = None \<or> response_message response = Some []) \<longrightarrow>
          captureError s' = Some \<lparr>error_type = Validation,
            message = ''Document is not clear. Please retake.'',
            tips = [''Ensure the document is fully visible.'', ''Avoid glare or shadows.'']\<rparr>) \<and>
      (\<forall>error. processDocument_outcome e = Rejected error \<or>
          (\<exists>response. processDocument_outcome e = Resolved response \<and>
             response_message response = Some ''CLEAR IMAGE'' \<and>
             processOCRDocument_outcome e = Rejected error) \<longrightarrow>
          (\<exists>m. captureError s' = Some \<lparr>error_type = Network, message = m,
             tips = [''Check your internet connection.'', ''Try again later.'']\<rparr>) \<and>
          ((response_data_message error = None \<or> response_data_message error = Some []) \<and>
           (error_message error = None \<or> error_message error = Some []) \<longrightarrow>
           captureError s' = Some \<lparr>error_type = Network,
             message = ''Network error. Please try again.'',
             tips = [''Check your internet connection.'', ''Try again later.'']\<rparr>) \<and>
          (\<forall>m. m \<noteq> [] \<and> (response_data_message error = Some m \<or>
                (response_data_message error = None \<or> response_data_message error = Some []) \<and>
                error_message error = Some m) \<longrightarrow>
           captureError s' = Some \<lparr>error_type = Network, message = m,
             tips = [''Check your internet connection.'', ''Try again later.'']\<rparr>)))"
proof (cases "processDocument_outcome e")
  case (Rejected error)
  show ?thesis
    by (auto simp add: handleCheckQuality_rejected [OF Rejected] Rejected segment_simps)
next
  case (Resolved response)
  show ?thesis
  proof (cases "response_message response = Some ''CLEAR IMAGE''")
    case False
    show ?thesis
      by (auto simp add: handleCheckQuality_not_clear [OF Resolved False] Resolved False
            segment_simps)
  next
    case True
    show ?thesis
    proof (cases "processOCRDocument_outcome e")
      case ocr: (Resolved ocrResponse)
      show ?thesis
        by (simp add: handleCheckQuality_clear_resolved [OF Resolved True ocr] Resolved True ocr
              segment_simps)
    next
      case ocr: (Rejected error)
      show ?thesis
        by (auto simp add: handleCheckQuality_clear_rejected [OF Resolved True ocr] Resolved True
              ocr segment_simps)
    qed
  qed
qed

theorem errors_are_categorised_witness:
  "captureError (handleCheckQuality sample_props
        (sample_env (Rejected no_message) (Resolved ''{}'')) (Some sample_image) mount)
     = Some \<lparr>error_type = Network,
            message = ''Network error. Please try again.'',
            tips = [''Check your internet connection.'', ''Try again later.'']\<rparr> \<and>
   captureError (handleCheckQuality sample_props
        (sample_env (Resolved (ApiResponse (Some ''Blurry image''))) (Resolved ''{}''))
        (Some sample_image) mount)
     = Some \<lparr>error_type = Validation, message = ''Blurry image'',
            tips = [''Ensure the document is fully visible.'', ''Avoid glare or shadows.'']\<rparr>"
  using errors_are_categorised
    [of sample_props "sample_env (Rejected no_message) (Resolved ''{}'')" sample_image mount]
   errors_are_categorised
    [of sample_props "sample_env (Resolved (ApiResponse (Some ''Blurry image''))) (Resolved ''{}'')"
        sample_image mount]
  by (simp add: sample_env_def Let_def no_message_def)

section \<open>DocumentBackCapture.tsx: retake\<close>

text \<open>
  C5. \<^verbatim>\<open>handleRetake\<close> leaves \<^verbatim>\<open>uploadError\<close>, \<^verbatim>\<open>captureError\<close> and \<^verbatim>\<open>capturedImage\<close> empty; it
  revokes the object URL of the image that was held; all of this is called before
  \<^verbatim>\<open>startCamera\<close>, which is called once, last. Afterwards the capture button is disabled
  as long as the camera is not streaming.
\<close>

theorem retake_clears_then_restarts_camera:
  "(let s' = handleRetake s; cs = calls s s' in
      uploadError s' = None \<and> captureError s' = None \<and> capturedImage s' = None \<and>
      count_list cs (StartCamera ''environment'') = 1 \<and>
      last cs = StartCamera ''environment'' \<and>
      precedes (SetUploadError None) (StartCamera ''environment'') cs \<and>
      precedes (SetCaptureError None) (StartCamera ''environment'') cs \<and>
      precedes (SetCapturedImage None) (StartCamera ''environment'') cs \<and>
      (\<forall>img. capturedImage s = Some img \<longrightarrow>
         count_list cs (RevokeObjectURL (url img)) = 1 \<and>
         precedes (RevokeObjectURL (url img)) (StartCamera ''environment'') cs) \<and>
      isCapturing s' = isCapturing s \<and> isUploading s' = isUploading s \<and>
      capture_disabled False s' \<and>
      (\<forall>streaming. capture_disabled streaming s' \<longleftrightarrow>
         \<not> streaming \<or> isCapturing s \<or> isUploading s))"
  by (cases "capturedImage s")
     (simp_all add: handleRetake_simps Let_def calls_def capture_disabled_def)

theorem retake_clears_then_restarts_camera_witness:
  "(let s = handleCapture sample_props
        (sample_env (Resolved (ApiResponse (Some ''Blurry image''))) (Resolved ''{}'')) mount;
        cs = calls s (handleRetake s)
    in capturedImage s = Some sample_image \<and>
       count_list cs (RevokeObjectURL ''blob:back'') = 1 \<and>
       precedes (RevokeObjectURL ''blob:back'') (StartCamera ''environment'') cs)"
proof -
  define s where "s = handleCapture sample_props
        (sample_env (Resolved (ApiResponse (Some ''Blurry image''))) (Resolved ''{}'')) mount"
  have img: "capturedImage s = Some sample_image"
    unfolding s_def
    by (simp add: handleCapture_taken [where b = 7 and u = "''blob:back''"]
          handleCheckQuality_not_clear [where response = "ApiResponse (Some ''Blurry image'')"]
          sample_env_def sample_image_def segment_simps)
  have "url sample_image = ''blob:back''"
    by (simp add: sample_image_def)
  with img retake_clears_then_restarts_camera [of s] show ?thesis
    unfolding s_def [symmetric] by (simp add: Let_def)
qed

text \<open>
  C6. Neither \<^verbatim>\<open>handleRetake\<close> nor the retry action of the error page calls
  \<^verbatim>\<open>processDocument\<close> or \<^verbatim>\<open>processOCRDocument\<close>. A run of \<^verbatim>\<open>handleCapture\<close> calls
  \<^verbatim>\<open>processOCRDocument\<close> if and only if a frame was captured and its quality check
  resolved with the message "CLEAR IMAGE", and then once, with the blob of that frame.
\<close>

theorem ocr_only_after_fresh_capture_is_clear:
  "\<not> list_ex is_ocr (calls s (handleRetake s)) \<and>
   \<not> list_ex is_upload (calls s (handleRetake s)) \<and>
   \<not> list_ex is_ocr (calls s (onRetry s)) \<and>
   \<not> list_ex is_upload (calls s (onRetry s)) \<and>
   (list_ex is_ocr (calls s (handleCapture p e s)) \<longleftrightarrow>
      (\<exists>b u response. captureImage_result e = Resolved (Some (b, u)) \<and>
         processDocument_outcome e = Resolved response \<and>
         response_message response = Some ''CLEAR IMAGE'')) \<and>
   (\<forall>b u. captureImage_result e = Resolved (Some (b, u)) \<longrightarrow>
      filter is_ocr (calls s (handleCapture p e s)) =
        (case processDocument_outcome e of
           Resolved response \<Rightarrow>
             if response_message response = Some ''CLEAR IMAGE''
             then [ProcessOCRDocument b (''ML_'' @ random_uuid e)] else []
         | Rejected error \<Rightarrow> []))"
proof -
  have retake: "\<not> list_ex is_ocr (calls s (handleRetake s)) \<and>
      \<not> list_ex is_upload (calls s (handleRetake s)) \<and>
      \<not> list_ex is_ocr (calls s (onRetry s)) \<and>
      \<not> list_ex is_upload (calls s (onRetry s))"
    by (cases "capturedImage s") (simp_all add: handleRetake_simps onRetry_simps calls_def)
  have capture: "(list_ex is_ocr (calls s (handleCapture p e s)) \<longleftrightarrow>
      (\<exists>b u response. captureImage_result e = Resolved (Some (b, u)) \<and>
         processDocument_outcome e = Resolved response \<and>
         response_message response = Some ''CLEAR IMAGE'')) \<and>
   (\<forall>b u. captureImage_result e = Resolved (Some (b, u)) \<longrightarrow>
      filter is_ocr (calls s (handleCapture p e s)) =
        (case processDocument_outcome e of
           Resolved response \<Rightarrow>
             if response_message response = Some ''CLEAR IMAGE''
             then [ProcessOCRDocument b (''ML_'' @ random_uuid e)] else []
         | Rejected error \<Rightarrow> []))"
  proof (cases "captureImage_result e = Resolved None \<or>
      (\<exists>error. captureImage_result e = Rejected error)")
    case True
    then show ?thesis
      by (auto simp add: handleCapture_thrown handleCapture_nothing segment_simps calls_def)
  next
    case False
    then obtain b u where taken: "captureImage_result e = Resolved (Some (b, u))"
      by (cases "captureImage_result e") auto
    show ?thesis
    proof (cases "processDocument_outcome e")
      case (Rejected error)
      show ?thesis
        by (simp add: handleCapture_taken [OF taken] handleCheckQuality_rejected [OF Rejected]
              taken Rejected segment_simps calls_def)
    next
      case (Resolved response)
      show ?thesis
      proof (cases "response_message response = Some ''CLEAR IMAGE''")
        case False
        show ?thesis
          by (simp add: handleCapture_taken [OF taken]
                handleCheckQuality_not_clear [OF Resolved False]
                taken Resolved False segment_simps calls_def)
      next
        case True
        show ?thesis
        proof (cases "processOCRDocument_outcome e")
          case ocr: (Resolved ocrResponse)
          show ?thesis
            by (simp add: handleCapture_taken [OF taken]
                  handleCheckQuality_clear_resolved [OF Resolved True ocr]
                  taken Resolved True segment_simps calls_def)
        next
          case ocr: (Rejected error)
          show ?thesis
            by (simp add: handleCapture_taken [OF taken]
                  handleCheckQuality_clear_rejected [OF Resolved True ocr]
                  taken Resolved True segment_simps calls_def)
        qed
      qed
    qed
  qed
  from retake capture show ?thesis by blast
qed

theorem ocr_only_after_fresh_capture_is_clear_witness:
  "filter is_ocr (calls mount (handleCapture sample_props
       (sample_env (Resolved (ApiResponse (Some ''CLEAR IMAGE''))) (Resolved ''{}'')) mount))
     = [ProcessOCRDocument 7 ''ML_k3x9''] \<and>
   filter is_ocr (calls mount (handleCapture sample_props
       (sample_env (Resolved (ApiResponse (Some ''Blurry image''))) (Resolved ''{}'')) mount))
     = []"
  using ocr_only_after_fresh_capture_is_clear
     [of mount sample_props
         "sample_env (Resolved (ApiResponse (Some ''CLEAR IMAGE''))) (Resolved ''{}'')"]
    ocr_only_after_fresh_capture_is_clear
     [of mount sample_props
         "sample_env (Resolved (ApiResponse (Some ''Blurry image''))) (Resolved ''{}'')"]
  by (simp add: sample_env_def)

section \<open>DocumentBackCapture.tsx: one cycle at a time\<close>

lemma step_one_cycle:
  assumes "one_cycle c" and "step p c a = Some c'"
  shows "one_cycle c'"
proof (cases a)
  case Click_capture
  with assms show ?thesis
    by (auto simp add: one_cycle_def capture_disabled_def capture_begin_simps split: if_splits)
next
  case Click_retry
  with assms show ?thesis
    by (auto simp add: one_cycle_def onRetry_simps split: if_splits)
next
  case (Camera b)
  with assms show ?thesis
    by (auto simp add: one_cycle_def)
next
  case (CaptureImage_settles i outcome t)
  with assms show ?thesis
    by (auto simp add: one_cycle_def waits_for_def remove_nth_def segment_simps Let_def
          split: if_splits option.splits settled.splits)
next
  case (ProcessDocument_settles i outcome rnd)
  with assms show ?thesis
    by (auto simp add: one_cycle_def remove_nth_def segment_simps
          split: if_splits task.splits settled.splits)
next
  case (ProcessOCR_settles i outcome)
  with assms show ?thesis
    by (auto simp add: one_cycle_def remove_nth_def segment_simps
          split: if_splits task.splits settled.splits)
qed

lemma run_one_cycle:
  "one_cycle c \<Longrightarrow> run p c as = Some c' \<Longrightarrow> one_cycle c'"
proof (induction as arbitrary: c)
  case Nil
  then show ?case by simp
next
  case (Cons a as)
  then show ?case
    by (auto split: option.splits dest: step_one_cycle)
qed

lemma one_cycle_mounted: "one_cycle mounted"
  by (simp add: one_cycle_def mounted_def)

lemma uploads_le_in_flight: "uploads_outstanding c \<le> length (in_flight c)"
  by (simp add: uploads_outstanding_def)

text \<open>
  C9. In every state the screen can reach from mounting, at most one run of
  \<^verbatim>\<open>handleCapture\<close> is in flight, so at most one quality-check upload is outstanding.
  The capture button is disabled exactly when the camera is not streaming, a capture is
  in progress or an upload is outstanding; a click on it is then impossible, and it is
  impossible while a run is in flight.
\<close>

theorem at_most_one_cycle_in_flight:
  assumes "run p mounted as = Some c"
  shows "length (in_flight c) \<le> 1 \<and> uploads_outstanding c \<le> 1 \<and>
     (capture_disabled (isStreaming c) (cells c) \<longleftrightarrow>
        \<not> isStreaming c \<or> isCapturing (cells c) \<or> isUploading (cells c)) \<and>
     (capture_disabled (isStreaming c) (cells c) \<longrightarrow> step p c Click_capture = None) \<and>
     (in_flight c \<noteq> [] \<longrightarrow> step p c Click_capture = None)"
proof -
  have inv: "one_cycle c"
    using one_cycle_mounted assms by (rule run_one_cycle)
  then have len: "length (in_flight c) \<le> 1"
    by (auto simp add: one_cycle_def)
  with uploads_le_in_flight [of c] have "uploads_outstanding c \<le> 1"
    by simp
  moreover from inv have "in_flight c \<noteq> [] \<longrightarrow> step p c Click_capture = None"
    by (auto simp add: one_cycle_def capture_disabled_def)
  ultimately show ?thesis
    using len by (simp add: capture_disabled_def)
qed

theorem at_most_one_cycle_in_flight_witness:
  "(case run sample_props mounted
       [Camera True, Click_capture, CaptureImage_settles 0 (Resolved (Some (7, ''blob:back''))) 0] of
      Some c \<Rightarrow> in_flight c = [AwaitProcessDocument sample_image] \<and>
                uploads_outstanding c \<le> 1 \<and> step sample_props c Click_capture = None
    | None \<Rightarrow> False)"
proof -
  let ?c = "\<lparr>cells = checkQuality_begin sample_props sample_image
               (capture_taken sample_image (capture_begin mount)),
             isStreaming = True, in_flight = [AwaitProcessDocument sample_image]\<rparr>"
  have r: "run sample_props mounted
       [Camera True, Click_capture, CaptureImage_settles 0 (Resolved (Some (7, ''blob:back''))) 0] = Some ?c"
    by (simp add: mounted_def mount_def startCamera_def emit_simps capture_rendered_def
          capture_disabled_def waits_for_def sample_image_def Let_def)
  from at_most_one_cycle_in_flight [OF r] show ?thesis
    unfolding r by (simp del: step.simps)
qed

text \<open>
  The steps of the screen and the handlers agree: an undisturbed cycle of steps leaves
  the state cells as one run of \<^verbatim>\<open>handleCapture\<close> does.
\<close>

lemma run_cycle:
  assumes "in_flight c = []" and "capture_rendered (cells c)"
    and "\<not> capture_disabled (isStreaming c) (cells c)"
  shows "run p c (cycle e) = Some (c\<lparr>cells := handleCapture p e (cells c)\<rparr>)"
proof (cases "captureImage_result e = Resolved None \<or>
    (\<exists>error. captureImage_result e = Rejected error)")
  case True
  with assms show ?thesis
    by (auto simp add: cycle_def handleCapture_nothing handleCapture_thrown waits_for_def
          remove_nth_def)
next
  case False
  then obtain b u where taken: "captureImage_result e = Resolved (Some (b, u))"
    by (cases "captureImage_result e") auto
  show ?thesis
  proof (cases "processDocument_outcome e")
    case (Rejected error)
    with assms show ?thesis
      by (simp add: cycle_def handleCapture_taken [OF taken] taken
            handleCheckQuality_rejected [OF Rejected] waits_for_def remove_nth_def Let_def)
  next
    case (Resolved response)
    show ?thesis
    proof (cases "response_message response = Some ''CLEAR IMAGE''")
      case False
      with assms show ?thesis
        by (simp add: cycle_def handleCapture_taken [OF taken] taken Resolved
              handleCheckQuality_not_clear [OF Resolved False] waits_for_def remove_nth_def Let_def)
    next
      case True
      show ?thesis
      proof (cases "processOCRDocument_outcome e")
        case ocr: (Resolved ocrResponse)
        with assms show ?thesis
          by (simp add: cycle_def handleCapture_taken [OF taken] taken Resolved True
                handleCheckQuality_clear_resolved [OF Resolved True ocr] waits_for_def
                remove_nth_def Let_def)
      next
        case ocr: (Rejected error)
        with assms show ?thesis
          by (simp add: cycle_def handleCapture_taken [OF taken] taken Resolved True
                handleCheckQuality_clear_rejected [OF Resolved True ocr] waits_for_def
                remove_nth_def Let_def)
      qed
    qed
  qed
qed

section \<open>CountrySelection.tsx: the country list\<close>

lemma map_fst_map_set:
  "map fst (map_set k v m) = (if k \<in> fst ` set m then map fst m else map fst m @ [k])"
proof (induction m)
  case Nil
  show ?case by simp
next
  case (Cons x m)
  obtain k' v' where x: "x = (k', v')" by (cases x)
  show ?case
    using Cons.IH by (cases "k' = k") (simp_all add: x)
qed

lemma distinct_map_set:
  "distinct (map fst m) \<Longrightarrow> distinct (map fst (map_set k v m))"
  by (simp add: map_fst_map_set)

lemma map_of_map_set:
  "map_of (map_set k v m) = (map_of m)(k \<mapsto> v)"
  by (induction m) auto

lemma foldl_map_set:
  "distinct (map fst m) \<Longrightarrow>
   distinct (map fst (foldl (\<lambda>m (k, v). map_set k v m) m es)) \<and>
   fst ` set (foldl (\<lambda>m (k, v). map_set k v m) m es) = fst ` set m \<union> fst ` set es \<and>
   map_of (foldl (\<lambda>m (k, v). map_set k v m) m es) = map_of m ++ map_of (rev es)"
proof (induction es arbitrary: m)
  case Nil
  then show ?case by simp
next
  case (Cons x es)
  obtain k v where x: "x = (k, v)" by (cases x)
  have d: "distinct (map fst (map_set k v m))"
    using Cons.prems by (rule distinct_map_set)
  have keys: "fst ` set (map_set k v m) = insert k (fst ` set m)"
    using map_fst_map_set [of k v m, THEN arg_cong, of set] by (auto simp add: image_iff)
  have m: "map_of (map_set k v m) ++ map_of (rev es) = map_of m ++ map_of (rev es @ [(k, v)])"
    by (simp add: map_of_map_set map_add_upd_left fun_eq_iff map_add_def split: option.split)
  from Cons.IH [OF d] show ?case
    by (simp add: x keys m)
qed

lemma new_Map_props:
  "distinct (map fst (new_Map es))"
  "fst ` set (new_Map es) = fst ` set es"
  "map_of (new_Map es) = map_of (rev es)"
  using foldl_map_set [of "[]" es] by (simp_all add: new_Map_def)

lemma map_of_rev_last:
  "map_of (rev (map (\<lambda>r. (kf r, vf r)) xs)) k =
     (if k \<in> kf ` set xs then Some (vf (last (filter (\<lambda>r. kf r = k) xs))) else None)"
  by (induction xs rule: rev_induct) auto

lemma sorted_key_map:
  "Sorting_Algorithms.sorted (key f cmp) xs \<longleftrightarrow> Sorting_Algorithms.sorted cmp (map f xs)"
  by (induction xs rule: induct_list012) simp_all

lemma set_countries:
  "set (countries lc md) = set (new_Map (map (\<lambda>item. (country_code item, country item)) md))"
  by (simp add: countries_def)

lemma distinct_codes_countries: "distinct (map fst (countries lc md))"
proof -
  have "mset (map fst (countries lc md)) =
        mset (map fst (new_Map (map (\<lambda>item. (country_code item, country item)) md)))"
    by (simp add: countries_def)
  then show ?thesis
    using new_Map_props(1) mset_eq_imp_distinct_iff by blast
qed

text \<open>
  C7. For every table, no two entries of the country list have the same code, the
  display names are in ascending order of the locale's comparison, and the codes of the
  list are the codes of the table.
\<close>

theorem countries_distinct_codes_sorted_by_name:
  "distinct (map fst (countries localeCompare metadata)) \<and>
   Sorting_Algorithms.sorted localeCompare (map snd (countries localeCompare metadata)) \<and>
   set (map fst (countries localeCompare metadata)) = set (map country_code metadata)"
proof -
  have "Sorting_Algorithms.sorted (key snd localeCompare) (countries localeCompare metadata)"
    by (simp add: countries_def)
  then have "Sorting_Algorithms.sorted localeCompare (map snd (countries localeCompare metadata))"
    by (simp add: sorted_key_map)
  moreover have "set (map fst (countries localeCompare metadata)) = set (map country_code metadata)"
    using new_Map_props(2) [of "map (\<lambda>item. (country_code item, country item)) metadata"]
    by (simp add: set_countries image_image)
  ultimately show ?thesis
    using distinct_codes_countries by blast
qed

text \<open>
  C10. An entry of the country list pairs a code of the table with the name of the last
  record of the table that has this code.
\<close>

theorem last_duplicate_names_the_country:
  "(code, name) \<in> set (countries localeCompare metadata) \<longleftrightarrow>
     code \<in> set (map country_code metadata) \<and>
     name = country (last (filter (\<lambda>item. country_code item = code) metadata))"
proof -
  let ?es = "map (\<lambda>item. (country_code item, country item)) metadata"
  have "(code, name) \<in> set (countries localeCompare metadata) \<longleftrightarrow>
        map_of (new_Map ?es) code = Some name"
    by (simp add: set_countries new_Map_props(1))
  also have "\<dots> \<longleftrightarrow> map_of (rev ?es) code = Some name"
    by (simp add: new_Map_props(3))
  also have "\<dots> \<longleftrightarrow> code \<in> set (map country_code metadata) \<and>
     name = country (last (filter (\<lambda>item. country_code item = code) metadata))"
    by (auto simp add: map_of_rev_last)
  finally show ?thesis .
qed

theorem last_duplicate_names_the_country_witness:
  "(''US'', ''USA'') \<in> set (countries default sample_table) \<and>
   (''US'', ''United States'') \<notin> set (countries default sample_table)"
  using last_duplicate_names_the_country [of "''US''" "''USA''" default sample_table]
    last_duplicate_names_the_country [of "''US''" "''United States''" default sample_table]
  by (simp add: sample_table_def)

lemma countries_sample: "countries default sample_table = [(''CA'', ''Canada''), (''US'', ''USA'')]"
  by (simp add: countries_def sample_table_def new_Map_def)

section \<open>CountrySelection.tsx: selecting a country\<close>

lemma count_list_sort_key:
  "count_list (map snd (sort_key fst xs)) ev = count_list (map snd xs) ev"
proof -
  have "mset (map snd (sort_key fst xs)) = mset (map snd xs)"
    by simp
  then show ?thesis
    by (metis count_mset)
qed

lemma count_list_append: "count_list (xs @ ys) x = count_list xs x + count_list ys x"
  by (induction xs) simp_all

text \<open>
  C8. Selecting a non-empty value calls \<^verbatim>\<open>onSelectCountryCode\<close> with that value at once
  and sets one timeout of 100 milliseconds for \<^verbatim>\<open>onNext\<close>: the selection adds no call of
  \<^verbatim>\<open>onNext\<close> before 100 milliseconds have passed, and exactly one from then on.
\<close>

theorem selection_advances_once_after_delay:
  assumes "value \<noteq> []"
  shows "called (handleChange value w) = called w @ [OnSelectCountryCode value] \<and>
     timers (handleChange value w) = timers w @ [(clock w + 100, OnNext)] \<and>
     count_list (called (elapse d (handleChange value w))) OnNext
       = count_list (called (elapse d w)) OnNext + (if 100 \<le> d then 1 else 0) \<and>
     (timers w = [] \<longrightarrow>
        called (elapse d (handleChange value w)) =
          called w @ OnSelectCountryCode value # (if 100 \<le> d then [OnNext] else []))"
  using assms
  by (simp add: handleChange_def onSelectCountryCode_def setTimeout_def elapse_def due_def
        Let_def count_list_append count_list_sort_key)

theorem selection_advances_once_after_delay_witness:
  "called (elapse 100 (handleChange ''US'' sample_page)) = [OnSelectCountryCode ''US'', OnNext] \<and>
   called (elapse 99 (handleChange ''US'' sample_page)) = [OnSelectCountryCode ''US'']"
  using selection_advances_once_after_delay [of "''US''" sample_page 100]
    selection_advances_once_after_delay [of "''US''" sample_page 99]
  by (simp add: sample_page_def)

end
